theory Spec2Isabelle
  imports Main "HOL-Library.Sublist"
begin

section \<open>OpenSeaBot: the per-address resolution loop of OpenSeaBot.py\<close>

text \<open>
  The development embeds \<^verbatim>\<open>src/OpenSeaBot.py\<close>: \<^verbatim>\<open>get_settings\<close>,
  \<^verbatim>\<open>finish\<close>, \<^verbatim>\<open>wait_until_visible\<close>, \<^verbatim>\<open>get_address_details\<close> and
  \<^verbatim>\<open>main\<close>. The browser, the clock and the file system are outside the program; what
  they answer is a parameter of the model (a record of outcomes), and every call that can
  raise in the source is a branch that can raise in the model.
\<close>

subsection \<open>Exceptions\<close>

text \<open>
  The exceptions the program can meet. \<open>TimeoutException\<close> is Selenium's subclass of
  \<open>WebDriverException\<close>; \<open>is_WebDriverException\<close> is
  \<^verbatim>\<open>isinstance(exc, WebDriverException)\<close>, the test made by the handler of
  \<^verbatim>\<open>finish\<close>. A bare \<^verbatim>\<open>except:\<close> catches every constructor.
\<close>

datatype exn =
    TimeoutException
  | WebDriverException
  | KeyError string
  | TypeError
  | FileNotFoundError
  | OSError

fun is_WebDriverException :: "exn \<Rightarrow> bool" where
  "is_WebDriverException TimeoutException = True"
| "is_WebDriverException WebDriverException = True"
| "is_WebDriverException (KeyError k) = False"
| "is_WebDriverException TypeError = False"
| "is_WebDriverException FileNotFoundError = False"
| "is_WebDriverException OSError = False"

subsection \<open>The browser session\<close>

datatype By = CSS_SELECTOR | ID | NAME | CLASS_NAME | TAG_NAME

type_synonym locator = "By \<times> string"

text \<open>
  What one browser session answers while it is used for one address. \<open>None\<close> is a call
  that returned, \<open>Some exc\<close> and \<open>Inl exc\<close> a call that raised \<open>exc\<close>.
  \<^item> \<open>get_result url\<close>: \<^verbatim>\<open>driver.get(url)\<close>;
  \<^item> \<open>until_visible loc duration\<close>:
    \<^verbatim>\<open>WebDriverWait(driver, duration, frequency).until(EC.visibility_of_element_located(loc))\<close>;
  \<^item> \<open>find_text loc\<close>: \<^verbatim>\<open>driver.find_element(*loc).text\<close>;
  \<^item> \<open>find_href loc\<close>: \<^verbatim>\<open>driver.find_element(*loc).get_attribute('href')\<close>, the
    href of an anchor element, a string;
  \<^item> \<open>close_result\<close>, \<open>quit_result\<close>: \<^verbatim>\<open>driver.close()\<close>, \<^verbatim>\<open>driver.quit()\<close>.
\<close>

record driver =
  get_result :: "string \<Rightarrow> exn option"
  until_visible :: "locator \<Rightarrow> nat \<Rightarrow> exn option"
  find_text :: "locator \<Rightarrow> exn + string"
  find_href :: "locator \<Rightarrow> exn + string"
  close_result :: "exn option"
  quit_result :: "exn option"

text \<open>
  Python's truth value of an optional string argument: \<^verbatim>\<open>None\<close> and the empty
  string are false, every other string is true.
\<close>

fun truthy :: "string option \<Rightarrow> bool" where
  "truthy None = False"
| "truthy (Some s) = (s \<noteq> [])"

text \<open>
  \<^verbatim>\<open>wait_until_visible\<close> (lines 181-193): an \<^verbatim>\<open>if\<close>/\<^verbatim>\<open>elif\<close> chain over the five
  locator arguments, each defaulting to \<^verbatim>\<open>None\<close>, with no final \<^verbatim>\<open>else\<close>.
\<close>

definition wait_until_visible ::
  "driver \<Rightarrow> string option \<Rightarrow> string option \<Rightarrow> string option \<Rightarrow> string option
     \<Rightarrow> string option \<Rightarrow> nat \<Rightarrow> exn option" where
  "wait_until_visible driver css_selector element_id name class_name tag_name duration =
     (if truthy css_selector then until_visible driver (CSS_SELECTOR, the css_selector) duration
      else if truthy element_id then until_visible driver (ID, the element_id) duration
      else if truthy name then until_visible driver (NAME, the name) duration
      else if truthy class_name then until_visible driver (CLASS_NAME, the class_name) duration
      else if truthy tag_name then until_visible driver (TAG_NAME, the tag_name) duration
      else None)"

text \<open>
  The specification's words for the same choice: the locator kinds in their priority
  order, and the first one that was supplied.
\<close>

fun first_supplied :: "(By \<times> string option) list \<Rightarrow> locator option" where
  "first_supplied [] = None"
| "first_supplied ((kind, v) # rest) =
     (if truthy v then Some (kind, the v) else first_supplied rest)"

subsection \<open>The scraped record and the output file\<close>

record stats =
  TodaysDate :: string
  ScanAddress :: string
  CollectionName :: string
  Collection :: string
  AssetNumber :: string
  BestOffer :: string
  Premium :: string

text \<open>
  \<^verbatim>\<open>Valid.csv\<close>, row by row. \<^verbatim>\<open>pd.DataFrame([stats]).to_csv\<close> writes the dict's keys as
  the header row and its values as one data row, in the dict's insertion order.
\<close>

datatype csv_row = HeaderRow "string list" | DataRow "string list"

definition columns :: "string list" where
  "columns = [''TodaysDate'', ''ScanAddress'', ''CollectionName'', ''Collection'',
              ''AssetNumber'', ''BestOffer'', ''Premium'']"

definition values_of :: "stats \<Rightarrow> string list" where
  "values_of s = [TodaysDate s, ScanAddress s, CollectionName s, Collection s,
                  AssetNumber s, BestOffer s, Premium s]"

text \<open>
  Lines 250-255, when \<^verbatim>\<open>to_csv\<close> returns: \<open>None\<close> is a file that does not exist
  (\<^verbatim>\<open>os.path.isfile\<close> is false), \<open>Some rows\<close> an existing file.
\<close>

definition save_stats :: "stats \<Rightarrow> csv_row list option \<Rightarrow> csv_row list option" where
  "save_stats s file =
     (case file of
        None \<Rightarrow> Some [HeaderRow columns, DataRow (values_of s)]
      | Some rows \<Rightarrow> Some (rows @ [DataRow (values_of s)]))"

subsection \<open>Settings\<close>

datatype json = JInt int | JStr string | JObj "(string \<times> json) list"

text \<open>
  \<^verbatim>\<open>d[key]\<close> on a loaded JSON value; the keys of a loaded object are distinct.
\<close>

fun getitem :: "json \<Rightarrow> string \<Rightarrow> exn + json" where
  "getitem (JObj kvs) key =
     (case map_of kvs key of None \<Rightarrow> Inl (KeyError key) | Some v \<Rightarrow> Inr v)"
| "getitem (JInt n) key = Inl TypeError"
| "getitem (JStr s) key = Inl TypeError"

definition default_settings :: json where
  "default_settings = JObj [(''Settings'', JObj [(''ThreadsCount'', JInt 5)])]"

text \<open>
  \<^verbatim>\<open>get_settings\<close> (lines 106-122). The settings file is \<open>None\<close> when it does not exist
  and \<open>Some j\<close> when it holds the JSON value \<open>j\<close>; \<^verbatim>\<open>json.dump\<close> followed by
  \<^verbatim>\<open>json.load\<close> gives the value back. The result is the settings and the file afterwards.
\<close>

definition get_settings :: "json option \<Rightarrow> json \<times> json option" where
  "get_settings file_settings =
     (case file_settings of
        Some j \<Rightarrow> (j, Some j)
      | None \<Rightarrow> (default_settings, Some default_settings))"

subsection \<open>The bot\<close>

datatype log_msg =
    Launched
  | Scraping nat string string
  | WaitingOpenSea
  | NoCollection
  | WaitingStats
  | StatsMsg stats
  | Saved
  | ClosingBrowser
  | CloseIssue exn

text \<open>
  The state the program changes: the messages given to \<^verbatim>\<open>self.LOGGER.info\<close> in order,
  the file \<^verbatim>\<open>Valid.csv\<close>, the browser sessions that were started and not quit (named by
  the loop index of their address), and the records handed to \<^verbatim>\<open>to_csv\<close> in call order.
\<close>

record bot =
  settings :: json
  LOGGER :: "log_msg list"
  file_valid :: "csv_row list option"
  sessions :: "nat list"
  to_csv_calls :: "stats list"

definition info :: "log_msg \<Rightarrow> bot \<Rightarrow> bot" where
  "info m self = self\<lparr>LOGGER := LOGGER self @ [m]\<rparr>"

text \<open>
  \<^verbatim>\<open>finish\<close> (lines 173-179): the handler catches \<^verbatim>\<open>WebDriverException\<close> only. The
  session leaves \<open>sessions\<close> when both \<^verbatim>\<open>close\<close> and \<^verbatim>\<open>quit\<close> returned.
\<close>

definition finish :: "driver \<Rightarrow> nat \<Rightarrow> bot \<Rightarrow> exn option \<times> bot" where
  "finish drv sid self =
     (let self1 = info ClosingBrowser self in
      case close_result drv of
        Some exc \<Rightarrow>
          (if is_WebDriverException exc then (None, info (CloseIssue exc) self1)
           else (Some exc, self1))
      | None \<Rightarrow>
          (case quit_result drv of
             Some exc \<Rightarrow>
               (if is_WebDriverException exc then (None, info (CloseIssue exc) self1)
                else (Some exc, self1))
           | None \<Rightarrow> (None, self1\<lparr>sessions := removeAll sid (sessions self1)\<rparr>)))"

subsection \<open>Strings\<close>

text \<open>
  \<^verbatim>\<open>s.split(sep)\<close> for a one-character separator, scanning from the left with the
  current piece (reversed) in \<open>piece\<close>: one more piece than there are separators, never
  the empty list, so that \<^verbatim>\<open>[-1]\<close> is \<open>last\<close> and cannot raise.
\<close>

fun split_from :: "char \<Rightarrow> string \<Rightarrow> string \<Rightarrow> string list" where
  "split_from sep piece [] = [rev piece]"
| "split_from sep piece (c # cs) =
     (if c = sep then rev piece # split_from sep [] cs
      else split_from sep (c # piece) cs)"

definition py_split :: "char \<Rightarrow> string \<Rightarrow> string list" where
  "py_split sep s = split_from sep [] s"

text \<open>The specification's words: the final segment is what follows the last separator.\<close>

definition final_segment :: "char \<Rightarrow> string \<Rightarrow> string" where
  "final_segment sep s = rev (takeWhile (\<lambda>c. c \<noteq> sep) (rev s))"

text \<open>\<^verbatim>\<open>s.replace('"', '')\<close>.\<close>

definition strip_quotes :: "string \<Rightarrow> string" where
  \<open>strip_quotes s = filter (\<lambda>c. c \<noteq> CHR ''"'') s\<close>

subsection \<open>The loop of \<^verbatim>\<open>get_address_details\<close>\<close>

definition OPENSEA_HOME_URL :: string where
  "OPENSEA_HOME_URL = ''https://opensea.io/''"

definition url_filter :: string where
  "url_filter = ''?search[sortBy]=UNIT_PRICE&search[sortAscending]=false''"

definition SEL_ADDRESS_NAME :: string where
  \<open>SEL_ADDRESS_NAME = ''[class="sc-29427738-0 sc-bdnxRM dKfiYh iIKkrq"]''\<close>

definition SEL_ASSET_ANCHOR :: string where
  \<open>SEL_ASSET_ANCHOR = ''[class="sc-1f719d57-0 fKAlPV Asset--anchor"]''\<close>

definition SEL_COLLECTION :: string where
  \<open>SEL_COLLECTION =
     ''[class="sc-29427738-0 sc-d0e902a1-3 sc-21df3ef5-6 sc-ec8f13a5-5 eLucQB hVPIAI kixOOB"]''\<close>

definition SEL_COLLECTION_LINK :: string where
  \<open>SEL_COLLECTION_LINK = ''[class="sc-1f719d57-0 fKAlPV CollectionLink--link"]''\<close>

definition SEL_BEST_OFFER :: string where
  \<open>SEL_BEST_OFFER =
     ''[class="sc-1a668f09-0 UitxP Price--fiat-amount Price--fiat-amount-secondary"]''\<close>

text \<open>
  What the outside answers during one iteration: \<^verbatim>\<open>self.get_driver(proxy=True,
  headless=False)\<close> (it raises, or it starts a session), the date that
  \<^verbatim>\<open>datetime.now().strftime("%m-%d-%Y")\<close> gives, and whether \<^verbatim>\<open>to_csv\<close> raises (the
  file is then taken as unchanged). What \<^verbatim>\<open>get_driver\<close> does inside (the user-agent and
  proxy files, the random choice, the message of \<^verbatim>\<open>get_proxy\<close>) is summed up by its
  outcome.
\<close>

record attempt =
  get_driver :: "exn + driver"
  today :: string
  to_csv_result :: "exn option"

text \<open>Lines 211 and 215-221: \<^verbatim>\<open>premium\<close> after the first \<^verbatim>\<open>try\<close>.\<close>

definition read_premium :: "driver \<Rightarrow> string" where
  "read_premium drv =
     (case wait_until_visible drv (Some SEL_ADDRESS_NAME) None None None None 10 of
        Some exc \<Rightarrow> ''''
      | None \<Rightarrow>
          (case find_text drv (CSS_SELECTOR, SEL_ADDRESS_NAME) of
             Inl exc \<Rightarrow> ''''
           | Inr address_name \<Rightarrow>
               (if \<not> sublist ''Unnamed'' address_name then ''Y'' else '''')))"

text \<open>Lines 227-230, 238-241 and 242-245: the three best-effort reads.\<close>

definition read_collection :: "driver \<Rightarrow> string" where
  "read_collection drv =
     (case find_text drv (CSS_SELECTOR, SEL_COLLECTION) of
        Inl exc \<Rightarrow> ''''
      | Inr text \<Rightarrow> strip_quotes text)"

definition read_collection_name :: "driver \<Rightarrow> string" where
  "read_collection_name drv =
     (case find_text drv (CSS_SELECTOR, SEL_COLLECTION_LINK) of
        Inl exc \<Rightarrow> ''''
      | Inr text \<Rightarrow> text)"

definition read_best_offer :: "driver \<Rightarrow> string" where
  "read_best_offer drv =
     (case find_text drv (CSS_SELECTOR, SEL_BEST_OFFER) of
        Inl exc \<Rightarrow> ''''
      | Inr text \<Rightarrow> text)"

text \<open>
  Lines 246-257, the end of an iteration once both waits returned: assemble the record,
  log it, write it, close the session.
\<close>

definition save_and_finish ::
  "attempt \<Rightarrow> driver \<Rightarrow> nat \<Rightarrow> stats \<Rightarrow> bot \<Rightarrow> exn option \<times> bot" where
  "save_and_finish env drv i st self =
     (let self1 = (info (StatsMsg st) self)\<lparr>to_csv_calls := to_csv_calls self @ [st]\<rparr> in
      case to_csv_result env of
        Some exc \<Rightarrow> (Some exc, self1)
      | None \<Rightarrow>
          finish drv i (info Saved (self1\<lparr>file_valid := save_stats st (file_valid self1)\<rparr>)))"

text \<open>
  One iteration of the \<^verbatim>\<open>for\<close> loop (lines 200-257). The result \<open>None\<close> is an iteration
  that ended (at its last statement or at a \<^verbatim>\<open>continue\<close>), so the loop goes on;
  \<open>Some exc\<close> is an exception that leaves \<^verbatim>\<open>get_address_details\<close>. The variable
  \<^verbatim>\<open>counter\<close> is only read by commented-out code.
\<close>

definition iteration :: "attempt \<Rightarrow> nat \<Rightarrow> string \<Rightarrow> bot \<Rightarrow> exn option \<times> bot" where
  "iteration env i address self =
     (case get_driver env of
        Inl exc \<Rightarrow> (Some exc, self)
      | Inr drv \<Rightarrow>
     (let self1 = self\<lparr>sessions := sessions self @ [i]\<rparr>;
          final_url = OPENSEA_HOME_URL @ address @ url_filter;
          self2 = info (Scraping i address final_url) self1 in
     (case get_result drv final_url of
        Some exc \<Rightarrow> (Some exc, self2)
      | None \<Rightarrow>
     (let self3 = info WaitingOpenSea self2;
          premium = read_premium drv in
     (case wait_until_visible drv (Some SEL_ASSET_ANCHOR) None None None None 10 of
        Some exc \<Rightarrow> (None, info NoCollection self3)
      | None \<Rightarrow>
     (let collection = read_collection drv in
     (case find_href drv (CSS_SELECTOR, SEL_ASSET_ANCHOR) of
        Inl exc \<Rightarrow> (Some exc, self3)
      | Inr asset_url \<Rightarrow>
     (case get_result drv asset_url of
        Some exc \<Rightarrow> (Some exc, self3)
      | None \<Rightarrow>
     (let self4 = info WaitingStats self3 in
     (case wait_until_visible drv (Some SEL_COLLECTION_LINK) None None None None 5 of
        Some exc \<Rightarrow> (None, self4)
      | None \<Rightarrow>
     (let collection_name = read_collection_name drv;
          best_offer = read_best_offer drv;
          asset_number = last (py_split (CHR ''/'') asset_url);
          st = \<lparr>TodaysDate = today env, ScanAddress = address,
                CollectionName = collection_name, Collection = collection,
                AssetNumber = asset_number, BestOffer = best_offer, Premium = premium\<rparr>
      in save_and_finish env drv i st self4)))))))))))"

text \<open>
  The loop over \<^verbatim>\<open>enumerate(addresses)\<close>, from index \<open>i\<close> on; \<open>env i\<close> is what the
  outside answers in iteration \<open>i\<close>.
\<close>

fun get_address_details_from ::
  "(nat \<Rightarrow> attempt) \<Rightarrow> nat \<Rightarrow> string list \<Rightarrow> bot \<Rightarrow> exn option \<times> bot" where
  "get_address_details_from env i [] self = (None, self)"
| "get_address_details_from env i (address # rest) self =
     (case iteration (env i) i address self of
        (Some exc, self') \<Rightarrow> (Some exc, self')
      | (None, self') \<Rightarrow> get_address_details_from env (Suc i) rest self')"

definition get_address_details ::
  "(nat \<Rightarrow> attempt) \<Rightarrow> string list \<Rightarrow> bot \<Rightarrow> exn option \<times> bot" where
  "get_address_details env addresses self = get_address_details_from env 0 addresses self"

subsection \<open>\<^verbatim>\<open>__init__\<close> and \<^verbatim>\<open>main\<close>\<close>

text \<open>
  \<^verbatim>\<open>__init__\<close> loads the settings; the result is the new bot and the settings file
  afterwards.
\<close>

definition init :: "json option \<Rightarrow> csv_row list option \<Rightarrow> bot \<times> json option" where
  "init file_settings valid =
     (let (s, file_settings') = get_settings file_settings in
      (\<lparr>settings = s, LOGGER = [], file_valid = valid, sessions = [], to_csv_calls = []\<rparr>,
       file_settings'))"

text \<open>
  \<^verbatim>\<open>pd.read_csv(self.file_addresses)\<close> and the \<^verbatim>\<open>Address\<close> column: the address file is
  \<open>None\<close> when it does not exist, and otherwise holds its \<^verbatim>\<open>Address\<close> column.
\<close>

definition read_addresses :: "string list option \<Rightarrow> exn + string list" where
  "read_addresses file_addresses =
     (case file_addresses of None \<Rightarrow> Inl FileNotFoundError | Some col \<Rightarrow> Inr col)"

text \<open>\<^verbatim>\<open>main\<close> (lines 259-267), after the banner.\<close>

definition main ::
  "(nat \<Rightarrow> attempt) \<Rightarrow> string list option \<Rightarrow> bot \<Rightarrow> exn option \<times> bot" where
  "main env file_addresses self =
     (let self1 = info Launched self in
      case getitem (settings self1) ''Settings'' of
        Inl exc \<Rightarrow> (Some exc, self1)
      | Inr section \<Rightarrow>
     (case getitem section ''ThreadCount'' of
        Inl exc \<Rightarrow> (Some exc, self1)
      | Inr thread_counts \<Rightarrow>
     (case read_addresses file_addresses of
        Inl exc \<Rightarrow> (Some exc, self1)
      | Inr addresses \<Rightarrow> get_address_details env addresses self1)))"

text \<open>\<^verbatim>\<open>OpenSeaBot().main()\<close>: the exception that ends the run if any, the bot, the settings file.\<close>

definition run ::
  "(nat \<Rightarrow> attempt) \<Rightarrow> json option \<Rightarrow> string list option \<Rightarrow> csv_row list option
     \<Rightarrow> exn option \<times> bot \<times> json option" where
  "run env file_settings file_addresses valid =
     (let (self, file_settings') = init file_settings valid;
          (r, self') = main env file_addresses self
      in (r, self', file_settings'))"

subsection \<open>Notions used by the properties\<close>

text \<open>
  What \<^verbatim>\<open>finish\<close> lets through: the handler catches \<^verbatim>\<open>WebDriverException\<close> only, so
  any other exception of \<^verbatim>\<open>close\<close>, or of \<^verbatim>\<open>quit\<close> when \<^verbatim>\<open>close\<close> returned, leaves it.
\<close>

definition close_exception :: "driver \<Rightarrow> exn option" where
  "close_exception drv =
     (case close_result drv of
        Some exc \<Rightarrow> (if is_WebDriverException exc then None else Some exc)
      | None \<Rightarrow>
          (case quit_result drv of
             Some exc \<Rightarrow> (if is_WebDriverException exc then None else Some exc)
           | None \<Rightarrow> None))"

text \<open>
  The calls of one iteration that stand outside every \<^verbatim>\<open>try\<close> block, in the order in
  which the iteration reaches them: \<^verbatim>\<open>get_driver\<close> (line 201), \<^verbatim>\<open>driver.get(final_url)\<close>
  (line 209); once the wait for the asset anchor returned, the \<^verbatim>\<open>find_element\<close> that reads
  the href (line 231) and \<^verbatim>\<open>driver.get(asset_url)\<close> (line 232); once the wait for the
  collection link returned, \<^verbatim>\<open>to_csv\<close> (lines 253, 255) and \<^verbatim>\<open>finish\<close> (line 257).
  \<open>unguarded_exception env address\<close> is the exception of the first of these calls that
  is made and raises, and \<open>None\<close> when every call that is made returns. A structural wait
  that raises ends the iteration at its \<^verbatim>\<open>continue\<close>: no later call is made, so none is
  asked to return. The owner-name wait and the four text reads do not occur at all.
\<close>

definition unguarded_exception :: "attempt \<Rightarrow> string \<Rightarrow> exn option" where
  "unguarded_exception env address =
     (case get_driver env of
        Inl exc \<Rightarrow> Some exc
      | Inr drv \<Rightarrow>
     (case get_result drv (OPENSEA_HOME_URL @ address @ url_filter) of
        Some exc \<Rightarrow> Some exc
      | None \<Rightarrow>
     (case until_visible drv (CSS_SELECTOR, SEL_ASSET_ANCHOR) 10 of
        Some timeout \<Rightarrow> None
      | None \<Rightarrow>
     (case find_href drv (CSS_SELECTOR, SEL_ASSET_ANCHOR) of
        Inl exc \<Rightarrow> Some exc
      | Inr asset_url \<Rightarrow>
     (case get_result drv asset_url of
        Some exc \<Rightarrow> Some exc
      | None \<Rightarrow>
     (case until_visible drv (CSS_SELECTOR, SEL_COLLECTION_LINK) 5 of
        Some timeout \<Rightarrow> None
      | None \<Rightarrow>
     (case to_csv_result env of
        Some exc \<Rightarrow> Some exc
      | None \<Rightarrow> close_exception drv)))))))"

text \<open>
  The addresses attempted according to the log: the loop index and address of every
  \<^verbatim>\<open>Scraping stats of {i}: {address}\<close> message, in order.
\<close>

fun attempted :: "log_msg list \<Rightarrow> (nat \<times> string) list" where
  "attempted [] = []"
| "attempted (Scraping i address url # ms) = (i, address) # attempted ms"
| "attempted (m # ms) = attempted ms"

subsection \<open>Example inputs\<close>

definition example_bot :: bot where
  "example_bot = \<lparr>settings = default_settings, LOGGER = [], file_valid = None,
                   sessions = [], to_csv_calls = []\<rparr>"

definition example_stats :: stats where
  "example_stats =
     \<lparr>TodaysDate = ''11-03-2026'', ScanAddress = ''cryptopunks'',
      CollectionName = ''CryptoPunks'', Collection = ''CryptoPunks'',
      AssetNumber = ''1234'', BestOffer = ''0.5 ETH'', Premium = ''Y''\<rparr>"

text \<open>A session in which every page renders and every element is found.\<close>

definition driver_resolves :: driver where
  "driver_resolves =
     \<lparr>get_result = (\<lambda>url. None),
      until_visible = (\<lambda>loc duration. None),
      find_text = (\<lambda>loc. if loc = (CSS_SELECTOR, SEL_BEST_OFFER) then Inr ''0.5 ETH''
                          else Inr ''CryptoPunks''),
      find_href = (\<lambda>loc. Inr ''https://opensea.io/assets/ethereum/0xb47e/1234''),
      close_result = None,
      quit_result = None\<rparr>"

text \<open>The same, with no best-offer element on the asset page.\<close>

definition driver_no_offer :: driver where
  "driver_no_offer =
     driver_resolves\<lparr>find_text :=
       (\<lambda>loc. if loc = (CSS_SELECTOR, SEL_BEST_OFFER) then Inl WebDriverException
              else Inr ''CryptoPunks'')\<rparr>"

text \<open>No best-offer element, and an asset link that ends in a slash.\<close>

definition driver_trailing_slash :: driver where
  "driver_trailing_slash =
     driver_no_offer\<lparr>find_href := (\<lambda>loc. Inr ''https://opensea.io/assets/ethereum/0xb47e/'')\<rparr>"

text \<open>A collection page on which the asset anchor never becomes visible.\<close>

definition driver_no_anchor :: driver where
  "driver_no_anchor =
     driver_resolves\<lparr>until_visible :=
       (\<lambda>loc duration. if loc = (CSS_SELECTOR, SEL_ASSET_ANCHOR) then Some TimeoutException
                       else None)\<rparr>"

text \<open>An asset page on which the collection link never becomes visible.\<close>

definition driver_no_collection_link :: driver where
  "driver_no_collection_link =
     driver_resolves\<lparr>until_visible :=
       (\<lambda>loc duration. if loc = (CSS_SELECTOR, SEL_COLLECTION_LINK) then Some TimeoutException
                       else None)\<rparr>"

definition attempt_with :: "driver \<Rightarrow> attempt" where
  "attempt_with drv = \<lparr>get_driver = Inr drv, today = ''11-03-2026'', to_csv_result = None\<rparr>"

text \<open>An iteration in which Chrome does not start.\<close>

definition attempt_no_session :: attempt where
  "attempt_no_session =
     \<lparr>get_driver = Inl WebDriverException, today = ''11-03-2026'', to_csv_result = None\<rparr>"

definition env_no_session :: "nat \<Rightarrow> attempt" where
  "env_no_session i = attempt_no_session"

definition env_no_anchor :: "nat \<Rightarrow> attempt" where
  "env_no_anchor i = attempt_with driver_no_anchor"

definition env_no_collection_link :: "nat \<Rightarrow> attempt" where
  "env_no_collection_link i = attempt_with driver_no_collection_link"

text \<open>
  A collection page with no asset anchor at all: the wait times out, and a lookup of the
  element would raise.
\<close>

definition driver_absent_anchor :: driver where
  "driver_absent_anchor =
     driver_no_anchor\<lparr>find_href := (\<lambda>loc. Inl WebDriverException)\<rparr>"

text \<open>A session in which no page loads.\<close>

definition driver_no_page :: driver where
  "driver_no_page = driver_resolves\<lparr>get_result := (\<lambda>url. Some WebDriverException)\<rparr>"

definition env_resolves :: "nat \<Rightarrow> attempt" where
  "env_resolves i = attempt_with driver_resolves"

definition env_skip_then_no_page :: "nat \<Rightarrow> attempt" where
  "env_skip_then_no_page i =
     (if i = 0 then attempt_with driver_absent_anchor else attempt_with driver_no_page)"

text \<open>
  The bot of a second process run, started on the file that a first run on
  \<^verbatim>\<open>cryptopunks\<close> left.
\<close>

definition second_run_bot :: bot where
  "second_run_bot =
     example_bot\<lparr>file_valid :=
       file_valid (snd (get_address_details env_resolves [''cryptopunks''] example_bot))\<rparr>"

section \<open>Auxiliary facts\<close>

subsection \<open>Splitting and the final segment\<close>

lemma split_from_not_Nil: "split_from sep piece s \<noteq> []"
  by (induction s arbitrary: piece) auto

lemma py_split_not_Nil: "py_split sep s \<noteq> []"
  by (simp add: py_split_def split_from_not_Nil)

lemma final_segment_Cons:
  "final_segment sep (c # cs) =
     (if sep \<in> set cs then final_segment sep cs else if c = sep then cs else c # cs)"
  by (auto simp: final_segment_def takeWhile_append takeWhile_eq_all_conv[THEN iffD2])

lemma final_segment_no_sep: "sep \<notin> set s \<Longrightarrow> final_segment sep s = s"
proof -
  assume "sep \<notin> set s"
  then have "\<forall>x\<in>set (rev s). x \<noteq> sep" by auto
  then have "takeWhile (\<lambda>c. c \<noteq> sep) (rev s) = rev s"
    by (simp only: takeWhile_eq_all_conv)
  then show ?thesis by (simp only: final_segment_def rev_rev_ident)
qed

lemma last_split_from:
  "last (split_from sep piece s) =
     (if sep \<in> set s then final_segment sep s else rev piece @ s)"
  by (induction s arbitrary: piece) (auto simp: final_segment_Cons split_from_not_Nil)

lemma last_py_split: "last (py_split sep s) = final_segment sep s"
  by (simp add: py_split_def last_split_from final_segment_no_sep)

lemma final_segment_suffix:
  "\<exists>p. s = p @ final_segment sep s \<and> sep \<notin> set (final_segment sep s) \<and>
       (p = [] \<or> last p = sep)"
proof -
  let ?P = "\<lambda>c. c \<noteq> sep"
  have s: "rev s = takeWhile ?P (rev s) @ dropWhile ?P (rev s)" by simp
  have "s = rev (dropWhile ?P (rev s)) @ final_segment sep s"
    unfolding final_segment_def by (metis rev_append rev_rev_ident s)
  moreover have "sep \<notin> set (final_segment sep s)"
    unfolding final_segment_def by (auto dest: set_takeWhileD)
  moreover have "rev (dropWhile ?P (rev s)) = [] \<or> last (rev (dropWhile ?P (rev s))) = sep"
    using hd_dropWhile[of ?P "rev s"] by (auto simp: last_rev)
  ultimately show ?thesis by blast
qed

lemma final_segment_empty_iff:
  "final_segment sep s = [] \<longleftrightarrow> s = [] \<or> last s = sep"
  by (cases "rev s") (auto simp: final_segment_def takeWhile_eq_Nil_iff last_rev hd_rev[symmetric])

subsection \<open>One iteration\<close>

lemma wait_address_name [simp]:
  "wait_until_visible drv (Some SEL_ADDRESS_NAME) None None None None d =
     until_visible drv (CSS_SELECTOR, SEL_ADDRESS_NAME) d"
  by (simp add: wait_until_visible_def SEL_ADDRESS_NAME_def)

lemma wait_asset_anchor [simp]:
  "wait_until_visible drv (Some SEL_ASSET_ANCHOR) None None None None d =
     until_visible drv (CSS_SELECTOR, SEL_ASSET_ANCHOR) d"
  by (simp add: wait_until_visible_def SEL_ASSET_ANCHOR_def)

lemma wait_collection_link [simp]:
  "wait_until_visible drv (Some SEL_COLLECTION_LINK) None None None None d =
     until_visible drv (CSS_SELECTOR, SEL_COLLECTION_LINK) d"
  by (simp add: wait_until_visible_def SEL_COLLECTION_LINK_def)

lemma info_fields [simp]:
  "to_csv_calls (info m self) = to_csv_calls self"
  "file_valid (info m self) = file_valid self"
  "sessions (info m self) = sessions self"
  "settings (info m self) = settings self"
  "LOGGER (info m self) = LOGGER self @ [m]"
  by (simp_all add: info_def)

lemma finish_keeps:
  "to_csv_calls (snd (finish drv sid self)) = to_csv_calls self"
  "file_valid (snd (finish drv sid self)) = file_valid self"
  by (simp_all add: finish_def Let_def split: option.splits)

lemma finish_raises_indep: "fst (finish drv sid self) = fst (finish drv sid' self')"
  by (simp add: finish_def Let_def split: option.splits)

lemma save_and_finish_calls:
  "to_csv_calls (snd (save_and_finish env drv i st self)) = to_csv_calls self @ [st]"
  by (simp add: save_and_finish_def Let_def finish_keeps split: option.splits)

lemma save_and_finish_raises:
  "fst (save_and_finish env drv i st self) =
     (case to_csv_result env of
        Some exc \<Rightarrow> Some exc
      | None \<Rightarrow> fst (finish drv i self'))"
  by (cases "to_csv_result env")
     (simp_all add: save_and_finish_def Let_def, rule finish_raises_indep)

text \<open>The iteration in which both structural waits return.\<close>

lemma iteration_resolved:
  assumes "get_driver env = Inr drv"
    and "get_result drv (OPENSEA_HOME_URL @ address @ url_filter) = None"
    and "until_visible drv (CSS_SELECTOR, SEL_ASSET_ANCHOR) 10 = None"
    and "find_href drv (CSS_SELECTOR, SEL_ASSET_ANCHOR) = Inr asset_url"
    and "get_result drv asset_url = None"
    and "until_visible drv (CSS_SELECTOR, SEL_COLLECTION_LINK) 5 = None"
  shows "iteration env i address self =
     save_and_finish env drv i
       \<lparr>TodaysDate = today env, ScanAddress = address,
        CollectionName = read_collection_name drv, Collection = read_collection drv,
        AssetNumber = last (py_split (CHR ''/'') asset_url),
        BestOffer = read_best_offer drv, Premium = read_premium drv\<rparr>
       (info WaitingStats (info WaitingOpenSea
          (info (Scraping i address (OPENSEA_HOME_URL @ address @ url_filter))
             (self\<lparr>sessions := sessions self @ [i]\<rparr>))))"
  using assms by (simp add: iteration_def Let_def)

text \<open>An iteration hands nothing to \<^verbatim>\<open>to_csv\<close> unless both structural waits returned.\<close>

lemma iteration_calls:
  "to_csv_calls (snd (iteration env i address self)) = to_csv_calls self \<or>
   (\<exists>drv asset_url.
      get_driver env = Inr drv \<and>
      get_result drv (OPENSEA_HOME_URL @ address @ url_filter) = None \<and>
      until_visible drv (CSS_SELECTOR, SEL_ASSET_ANCHOR) 10 = None \<and>
      find_href drv (CSS_SELECTOR, SEL_ASSET_ANCHOR) = Inr asset_url \<and>
      get_result drv asset_url = None \<and>
      until_visible drv (CSS_SELECTOR, SEL_COLLECTION_LINK) 5 = None)"
  by (simp add: iteration_def Let_def split: sum.splits option.splits)

lemma iteration_emitted:
  assumes "to_csv_calls (snd (iteration env i address self)) = to_csv_calls self @ [st]"
  shows "\<exists>drv asset_url.
      get_driver env = Inr drv \<and>
      find_href drv (CSS_SELECTOR, SEL_ASSET_ANCHOR) = Inr asset_url \<and>
      st = \<lparr>TodaysDate = today env, ScanAddress = address,
            CollectionName = read_collection_name drv, Collection = read_collection drv,
            AssetNumber = last (py_split (CHR ''/'') asset_url),
            BestOffer = read_best_offer drv, Premium = read_premium drv\<rparr>"
proof -
  from iteration_calls[of env i address self] assms
  obtain drv asset_url where h: "get_driver env = Inr drv"
      "get_result drv (OPENSEA_HOME_URL @ address @ url_filter) = None"
      "until_visible drv (CSS_SELECTOR, SEL_ASSET_ANCHOR) 10 = None"
      "find_href drv (CSS_SELECTOR, SEL_ASSET_ANCHOR) = Inr asset_url"
      "get_result drv asset_url = None"
      "until_visible drv (CSS_SELECTOR, SEL_COLLECTION_LINK) 5 = None"
    by auto
  from assms show ?thesis
    unfolding iteration_resolved[OF h] save_and_finish_calls using h(1,4) by simp
qed

lemma read_premium_Y:
  "read_premium drv = ''Y'' \<longleftrightarrow>
     until_visible drv (CSS_SELECTOR, SEL_ADDRESS_NAME) 10 = None \<and>
     (\<exists>t. find_text drv (CSS_SELECTOR, SEL_ADDRESS_NAME) = Inr t \<and> \<not> sublist ''Unnamed'' t)"
  by (auto simp: read_premium_def split: option.splits sum.splits)

lemma read_premium_values: "read_premium drv = ''Y'' \<or> read_premium drv = ''''"
  by (simp add: read_premium_def split: option.splits sum.splits)

subsection \<open>The loop\<close>

lemma attempted_append: "attempted (xs @ ys) = attempted xs @ attempted ys"
  by (induction xs rule: attempted.induct) simp_all

lemma finish_raises: "fst (finish drv sid self) = close_exception drv"
  by (simp add: finish_def close_exception_def Let_def split: option.splits)

lemma finish_attempted:
  "attempted (LOGGER (snd (finish drv sid self))) = attempted (LOGGER self)"
  by (simp add: finish_def Let_def attempted_append split: option.splits)

text \<open>An iteration raises exactly what its first failing unguarded call raises.\<close>

lemma iteration_raises:
  "fst (iteration env i address self) = unguarded_exception env address"
  by (auto simp: iteration_def unguarded_exception_def Let_def save_and_finish_def
        finish_raises split: sum.splits option.splits)

text \<open>
  An iteration logs its address once the session has started, and logs no other address.
\<close>

lemma iteration_attempted:
  "attempted (LOGGER (snd (iteration env i address self))) =
     attempted (LOGGER self) @
       (case get_driver env of Inl exc \<Rightarrow> [] | Inr drv \<Rightarrow> [(i, address)])"
  by (simp add: iteration_def Let_def save_and_finish_def finish_attempted attempted_append
        split: sum.splits option.splits)

lemma iteration_unguarded:
  assumes "unguarded_exception env address = None"
  shows "iteration env i address self = (None, snd (iteration env i address self)) \<and>
         attempted (LOGGER (snd (iteration env i address self))) =
           attempted (LOGGER self) @ [(i, address)]"
proof -
  from assms have "fst (iteration env i address self) = None"
    by (simp add: iteration_raises)
  then have 1: "iteration env i address self = (None, snd (iteration env i address self))"
    by (cases "iteration env i address self") simp
  from assms obtain drv where "get_driver env = Inr drv"
    by (cases "get_driver env") (simp_all add: unguarded_exception_def)
  then have "attempted (LOGGER (snd (iteration env i address self))) =
               attempted (LOGGER self) @ [(i, address)]"
    by (simp add: iteration_attempted)
  with 1 show ?thesis by blast
qed

lemma loop_continues:
  assumes "\<forall>k<length pre. unguarded_exception (env (i + k)) (pre ! k) = None"
  shows "fst (get_address_details_from env i pre self) = None \<and>
         attempted (LOGGER (snd (get_address_details_from env i pre self))) =
           attempted (LOGGER self) @ zip [i..<i + length pre] pre \<and>
         get_address_details_from env i (pre @ rest) self =
           get_address_details_from env (i + length pre) rest
             (snd (get_address_details_from env i pre self))"
  using assms
proof (induction pre arbitrary: i self)
  case Nil
  show ?case by simp
next
  case (Cons a pre)
  from Cons.prems have a: "unguarded_exception (env i) a = None" by force
  from Cons.prems
  have r: "\<forall>k<length pre. unguarded_exception (env (Suc i + k)) (pre ! k) = None"
    by force
  define self1 where "self1 = snd (iteration (env i) i a self)"
  from iteration_unguarded[OF a, of i self]
  have it: "iteration (env i) i a self = (None, self1)"
    and l1: "attempted (LOGGER self1) = attempted (LOGGER self) @ [(i, a)]"
    by (simp_all add: self1_def)
  have "[i..<i + length (a # pre)] = i # [Suc i..<Suc i + length pre]"
    by (subst upt_rec) simp
  then have z: "zip [i..<i + length (a # pre)] (a # pre) =
                  (i, a) # zip [Suc i..<Suc i + length pre] pre"
    by (simp del: upt_Suc)
  from Cons.IH[OF r, of self1] it l1 show ?case
    unfolding z by simp
qed

subsection \<open>The output file\<close>

text \<open>
  When \<^verbatim>\<open>to_csv\<close> does not raise, an iteration either leaves the file and the list of
  calls as they were, or makes one call and saves its record.
\<close>

lemma iteration_store:
  assumes "to_csv_result env = None"
  shows "(to_csv_calls (snd (iteration env i address self)) = to_csv_calls self \<and>
          file_valid (snd (iteration env i address self)) = file_valid self) \<or>
         (\<exists>st. to_csv_calls (snd (iteration env i address self)) = to_csv_calls self @ [st] \<and>
               file_valid (snd (iteration env i address self)) =
                 save_stats st (file_valid self))"
  using assms
  by (simp add: iteration_def Let_def save_and_finish_def finish_keeps
        split: sum.splits option.splits)

text \<open>The file after the loop, from the file before and the calls the loop made.\<close>

lemma loop_store:
  assumes "\<forall>k<length addresses. to_csv_result (env (i + k)) = None"
  shows "\<exists>new.
      to_csv_calls (snd (get_address_details_from env i addresses self)) =
        to_csv_calls self @ new \<and>
      file_valid (snd (get_address_details_from env i addresses self)) =
        (case file_valid self of
           None \<Rightarrow>
             (if new = [] then None
              else Some (HeaderRow columns # map (\<lambda>s. DataRow (values_of s)) new))
         | Some rows \<Rightarrow> Some (rows @ map (\<lambda>s. DataRow (values_of s)) new))"
  using assms
proof (induction addresses arbitrary: i self)
  case Nil
  show ?case by (intro exI[of _ "[]"]) (simp split: option.splits)
next
  case (Cons a addresses)
  let ?D = "\<lambda>s. DataRow (values_of s)"
  obtain r self1 where it: "iteration (env i) i a self = (r, self1)"
    by (cases "iteration (env i) i a self")
  from Cons.prems have csv: "to_csv_result (env i) = None" by force
  from Cons.prems
  have rest: "\<forall>k<length addresses. to_csv_result (env (Suc i + k)) = None" by force
  from iteration_store[OF csv, of i a self] it
  obtain new1 where c1: "to_csv_calls self1 = to_csv_calls self @ new1"
    and f1: "file_valid self1 =
      (case file_valid self of
         None \<Rightarrow> (if new1 = [] then None else Some (HeaderRow columns # map ?D new1))
       | Some rows \<Rightarrow> Some (rows @ map ?D new1))"
    by (auto simp: save_stats_def split: option.splits)
  show ?case
  proof (cases r)
    case (Some exc)
    with it c1 f1 show ?thesis by (intro exI[of _ new1]) simp
  next
    case None
    from Cons.IH[OF rest, of self1] obtain new2 where
      c2: "to_csv_calls (snd (get_address_details_from env (Suc i) addresses self1)) =
             to_csv_calls self1 @ new2"
      and f2: "file_valid (snd (get_address_details_from env (Suc i) addresses self1)) =
        (case file_valid self1 of
           None \<Rightarrow> (if new2 = [] then None else Some (HeaderRow columns # map ?D new2))
         | Some rows \<Rightarrow> Some (rows @ map ?D new2))"
      by blast
    from None it c1 c2 f1 f2 show ?thesis
      by (intro exI[of _ "new1 @ new2"]) (auto split: option.splits)
  qed
qed

subsection \<open>The example inputs\<close>

lemma driver_resolves_facts:
  "get_driver (attempt_with drv) = Inr drv"
  "get_result driver_resolves url = None"
  "until_visible driver_resolves loc d = None"
  "find_href driver_resolves loc = Inr ''https://opensea.io/assets/ethereum/0xb47e/1234''"
  by (simp_all add: attempt_with_def driver_resolves_def)

lemma driver_no_offer_facts:
  "get_result driver_no_offer url = None"
  "until_visible driver_no_offer loc d = None"
  "find_href driver_no_offer loc = Inr ''https://opensea.io/assets/ethereum/0xb47e/1234''"
  "find_text driver_no_offer (CSS_SELECTOR, SEL_BEST_OFFER) = Inl WebDriverException"
  by (simp_all add: driver_no_offer_def driver_resolves_def)

lemma example_resolves:
  "to_csv_calls (snd (iteration (attempt_with driver_resolves) 0 ''cryptopunks'' example_bot)) =
     to_csv_calls example_bot @
       [\<lparr>TodaysDate = ''11-03-2026'', ScanAddress = ''cryptopunks'',
         CollectionName = ''CryptoPunks'', Collection = ''CryptoPunks'',
         AssetNumber = ''1234'', BestOffer = ''0.5 ETH'', Premium = ''Y''\<rparr>]"
  by code_simp

lemma first_run_calls:
  "to_csv_calls (snd (get_address_details env_resolves [''cryptopunks''] example_bot)) =
     [example_stats]"
  by code_simp

lemma second_run_calls:
  "to_csv_calls (snd (get_address_details env_resolves [''azuki''] second_run_bot)) =
     [example_stats\<lparr>ScanAddress := ''azuki''\<rparr>]"
  by code_simp

section \<open>Properties\<close>

subsection \<open>The batch and exceptions\<close>

text \<open>
  C1, as stated: an exception raised during one address's resolution, a session-creation
  failure included, does not terminate the batch, and every later address is still
  attempted. It fails: \<^verbatim>\<open>get_driver\<close> is called outside every \<^verbatim>\<open>try\<close> block. With two
  addresses and a browser that does not start, \<^verbatim>\<open>get_address_details\<close> ends with the
  exception of the first iteration, and the log shows that no address was attempted.
\<close>

theorem session_failure_ends_batch:
  "get_address_details env_no_session [''cryptopunks'', ''bad-collection''] example_bot =
     (Some WebDriverException, example_bot) \<and>
   attempted (LOGGER (snd (get_address_details env_no_session
     [''cryptopunks'', ''bad-collection''] example_bot))) = []"
  by (simp add: get_address_details_def iteration_def env_no_session_def
        attempt_no_session_def example_bot_def)

text \<open>
  C1, amended: an exception raised inside one of the \<^verbatim>\<open>try\<close> blocks of an iteration (the
  three waits, the four text reads, a \<^verbatim>\<open>WebDriverException\<close> while closing) does not
  terminate the batch. As long as the unguarded calls that the iterations for the addresses
  \<open>pre\<close> make return, whatever the guarded calls do, the loop runs through \<open>pre\<close> without an
  exception, every address of \<open>pre\<close> is attempted in input order, and the loop goes on
  with the addresses \<open>rest\<close> that follow. An exception of an unguarded call is not caught:
  when session creation, one of the two navigations, the href lookup, \<^verbatim>\<open>to_csv\<close> or a
  non-WebDriver error of \<^verbatim>\<open>close\<close>/\<^verbatim>\<open>quit\<close> raises for the next address, that exception
  leaves \<^verbatim>\<open>get_address_details\<close>; that address is the last one attempted (and is itself
  not attempted when it is session creation that raised), and no later address is.
\<close>

theorem guarded_failures_do_not_stop_batch:
  assumes "\<forall>k<length pre. unguarded_exception (env (i + k)) (pre ! k) = None"
  shows "fst (get_address_details_from env i pre self) = None \<and>
         attempted (LOGGER (snd (get_address_details_from env i pre self))) =
           attempted (LOGGER self) @ zip [i..<i + length pre] pre \<and>
         get_address_details_from env i (pre @ rest) self =
           get_address_details_from env (i + length pre) rest
             (snd (get_address_details_from env i pre self)) \<and>
         (unguarded_exception (env (i + length pre)) address = Some exc \<longrightarrow>
            fst (get_address_details_from env i (pre @ address # rest) self) = Some exc \<and>
            attempted (LOGGER (snd (get_address_details_from env i (pre @ address # rest) self))) =
              attempted (LOGGER self) @ zip [i..<i + length pre] pre @
                (case get_driver (env (i + length pre)) of
                   Inl e \<Rightarrow> []
                 | Inr drv \<Rightarrow> [(i + length pre, address)]))"
proof -
  let ?n = "i + length pre"
  let ?s = "snd (get_address_details_from env i pre self)"
  note c = loop_continues[OF assms, of self]
  have "fst (get_address_details_from env i (pre @ address # rest) self) = Some exc \<and>
        attempted (LOGGER (snd (get_address_details_from env i (pre @ address # rest) self))) =
          attempted (LOGGER self) @ zip [i..<i + length pre] pre @
            (case get_driver (env ?n) of Inl e \<Rightarrow> [] | Inr drv \<Rightarrow> [(?n, address)])"
    if u: "unguarded_exception (env ?n) address = Some exc"
  proof -
    obtain r s1 where it: "iteration (env ?n) ?n address ?s = (r, s1)"
      by (cases "iteration (env ?n) ?n address ?s")
    from iteration_raises[of "env ?n" ?n address ?s] it u have r: "r = Some exc" by simp
    from iteration_attempted[of "env ?n" ?n address ?s] it
    have a: "attempted (LOGGER s1) =
               attempted (LOGGER ?s) @
                 (case get_driver (env ?n) of Inl e \<Rightarrow> [] | Inr drv \<Rightarrow> [(?n, address)])"
      by simp
    from c[of "address # rest"]
    have "get_address_details_from env i (pre @ address # rest) self =
            get_address_details_from env ?n (address # rest) ?s"
      by blast
    also have "\<dots> = (Some exc, s1)" using it r by simp
    finally show ?thesis using a c[of rest] by simp
  qed
  with c[of rest] show ?thesis by blast
qed

theorem guarded_failures_do_not_stop_batch_witness:
  "unguarded_exception (env_skip_then_no_page 0) ''bad-collection'' = None \<and>
   unguarded_exception (env_skip_then_no_page (Suc 0)) ''cryptopunks'' =
     Some WebDriverException \<and>
   fst (get_address_details_from env_skip_then_no_page 0
          [''bad-collection'', ''cryptopunks'', ''azuki''] example_bot) =
     Some WebDriverException \<and>
   attempted (LOGGER (snd (get_address_details_from env_skip_then_no_page 0
          [''bad-collection'', ''cryptopunks'', ''azuki''] example_bot))) =
     [(0, ''bad-collection''), (Suc 0, ''cryptopunks'')]"
proof -
  have u0: "unguarded_exception (env_skip_then_no_page 0) ''bad-collection'' = None"
    by (simp add: unguarded_exception_def env_skip_then_no_page_def attempt_with_def
          driver_absent_anchor_def driver_no_anchor_def driver_resolves_def)
  have u1: "unguarded_exception (env_skip_then_no_page (Suc 0)) ''cryptopunks'' =
              Some WebDriverException"
    by (simp add: unguarded_exception_def env_skip_then_no_page_def attempt_with_def
          driver_no_page_def driver_resolves_def)
  have d: "get_driver (env_skip_then_no_page (Suc 0)) = Inr driver_no_page"
    by (simp add: env_skip_then_no_page_def attempt_with_def)
  have l: "LOGGER example_bot = []" by (simp add: example_bot_def)
  from u0 have h: "\<forall>k<length [''bad-collection''].
      unguarded_exception (env_skip_then_no_page (0 + k)) ([''bad-collection''] ! k) = None"
    by simp
  from u1 have u1': "unguarded_exception (env_skip_then_no_page (0 + length [''bad-collection'']))
      ''cryptopunks'' = Some WebDriverException"
    by simp
  from guarded_failures_do_not_stop_batch[OF h, of example_bot "[''azuki'']" "''cryptopunks''"
      WebDriverException] u1'
  have "fst (get_address_details_from env_skip_then_no_page 0
               ([''bad-collection''] @ ''cryptopunks'' # [''azuki'']) example_bot) =
          Some WebDriverException \<and>
        attempted (LOGGER (snd (get_address_details_from env_skip_then_no_page 0
               ([''bad-collection''] @ ''cryptopunks'' # [''azuki'']) example_bot))) =
          attempted (LOGGER example_bot) @
            zip [0..<0 + length [''bad-collection'']] [''bad-collection''] @
            (case get_driver (env_skip_then_no_page (0 + length [''bad-collection''])) of
               Inl e \<Rightarrow> []
             | Inr drv \<Rightarrow> [(0 + length [''bad-collection''], ''cryptopunks'')])"
    by blast
  with u0 u1 show ?thesis
    by (simp add: d l del: get_address_details_from.simps)
qed

subsection \<open>Sessions\<close>

text \<open>
  The last statement of an iteration calls \<^verbatim>\<open>finish\<close>: when both structural waits return
  and neither the write nor \<^verbatim>\<open>close\<close>/\<^verbatim>\<open>quit\<close> raises, the session of the address is
  gone when the iteration ends. The \<^verbatim>\<open>continue\<close> of the asset-anchor timeout is reached
  without any call of \<^verbatim>\<open>finish\<close>, and the session stays.
\<close>

lemma resolved_address_closes_session:
  assumes "get_driver env = Inr drv"
    and "get_result drv (OPENSEA_HOME_URL @ address @ url_filter) = None"
    and "until_visible drv (CSS_SELECTOR, SEL_ASSET_ANCHOR) 10 = None"
    and "find_href drv (CSS_SELECTOR, SEL_ASSET_ANCHOR) = Inr asset_url"
    and "get_result drv asset_url = None"
    and "until_visible drv (CSS_SELECTOR, SEL_COLLECTION_LINK) 5 = None"
    and "to_csv_result env = None" and "close_result drv = None" and "quit_result drv = None"
  shows "i \<notin> set (sessions (snd (iteration env i address self)))"
  unfolding iteration_resolved[OF assms(1-6)]
  using assms(7-9) by (simp add: save_and_finish_def finish_def Let_def)

lemma skipped_address_keeps_session:
  assumes "get_driver env = Inr drv"
    and "get_result drv (OPENSEA_HOME_URL @ address @ url_filter) = None"
    and "until_visible drv (CSS_SELECTOR, SEL_ASSET_ANCHOR) 10 = Some exc"
  shows "i \<in> set (sessions (snd (iteration env i address self)))"
  using assms by (simp add: iteration_def Let_def)

lemma skipped_asset_page_keeps_session:
  assumes "get_driver env = Inr drv"
    and "get_result drv (OPENSEA_HOME_URL @ address @ url_filter) = None"
    and "until_visible drv (CSS_SELECTOR, SEL_ASSET_ANCHOR) 10 = None"
    and "find_href drv (CSS_SELECTOR, SEL_ASSET_ANCHOR) = Inr asset_url"
    and "get_result drv asset_url = None"
    and "until_visible drv (CSS_SELECTOR, SEL_COLLECTION_LINK) 5 = Some exc"
  shows "i \<in> set (sessions (snd (iteration env i address self)))"
  using assms by (simp add: iteration_def Let_def)

text \<open>
  C2: the session created for an address is closed before its resolution returns, on the
  success path and on both terminal-skip exits. The code does not do this on the skip
  exits. Run on the single address \<^verbatim>\<open>bad-collection\<close>, whose asset anchor times out, the
  loop ends normally with session 0 still open: the log holds the skip message and no
  \<^verbatim>\<open>Closing browser\<close>.
\<close>

theorem skipped_address_leaves_session_open:
  "get_address_details env_no_anchor [''bad-collection''] example_bot =
     (None, example_bot
        \<lparr>LOGGER := [Scraping 0 ''bad-collection''
                       ''https://opensea.io/bad-collection?search[sortBy]=UNIT_PRICE&search[sortAscending]=false'',
                     WaitingOpenSea, NoCollection],
         sessions := [0]\<rparr>)"
  by code_simp

subsection \<open>Structural timeouts\<close>

text \<open>
  C3. Take an iteration whose session started and whose collection page loaded. If the
  wait for the asset anchor raises, or if that wait returns, the asset page loads and the
  wait for the collection link raises, then the iteration ends without an exception,
  nothing is handed to \<^verbatim>\<open>to_csv\<close>, the output file is unchanged, and the loop goes on
  with the next address.
\<close>

theorem structural_timeout_skips:
  assumes "get_driver (env i) = Inr drv"
    and "get_result drv (OPENSEA_HOME_URL @ address @ url_filter) = None"
    and "until_visible drv (CSS_SELECTOR, SEL_ASSET_ANCHOR) 10 = Some exc \<or>
         (until_visible drv (CSS_SELECTOR, SEL_ASSET_ANCHOR) 10 = None \<and>
          find_href drv (CSS_SELECTOR, SEL_ASSET_ANCHOR) = Inr asset_url \<and>
          get_result drv asset_url = None \<and>
          until_visible drv (CSS_SELECTOR, SEL_COLLECTION_LINK) 5 = Some exc)"
  shows "\<exists>self'.
      iteration (env i) i address self = (None, self') \<and>
      to_csv_calls self' = to_csv_calls self \<and>
      file_valid self' = file_valid self \<and>
      get_address_details_from env i (address # rest) self =
        get_address_details_from env (Suc i) rest self'"
  using assms by (auto simp: iteration_def Let_def)

theorem structural_timeout_skips_witness:
  "\<exists>self'.
      iteration (env_no_collection_link 0) 0 ''cryptopunks'' example_bot = (None, self') \<and>
      to_csv_calls self' = to_csv_calls example_bot \<and>
      file_valid self' = file_valid example_bot \<and>
      get_address_details_from env_no_collection_link 0 (''cryptopunks'' # [''azuki''])
          example_bot =
        get_address_details_from env_no_collection_link (Suc 0) [''azuki''] self'"
proof -
  have h1: "get_driver (env_no_collection_link 0) = Inr driver_no_collection_link"
    by (simp add: env_no_collection_link_def attempt_with_def)
  have h2: "get_result driver_no_collection_link
              (OPENSEA_HOME_URL @ ''cryptopunks'' @ url_filter) = None"
    by (simp add: driver_no_collection_link_def driver_resolves_def)
  have h3: "until_visible driver_no_collection_link (CSS_SELECTOR, SEL_ASSET_ANCHOR) 10 =
              Some TimeoutException \<or>
         (until_visible driver_no_collection_link (CSS_SELECTOR, SEL_ASSET_ANCHOR) 10 = None \<and>
          find_href driver_no_collection_link (CSS_SELECTOR, SEL_ASSET_ANCHOR) =
            Inr ''https://opensea.io/assets/ethereum/0xb47e/1234'' \<and>
          get_result driver_no_collection_link
            ''https://opensea.io/assets/ethereum/0xb47e/1234'' = None \<and>
          until_visible driver_no_collection_link (CSS_SELECTOR, SEL_COLLECTION_LINK) 5 =
            Some TimeoutException)"
    by (simp add: driver_no_collection_link_def driver_resolves_def
          SEL_ASSET_ANCHOR_def SEL_COLLECTION_LINK_def)
  show ?thesis
    by (rule structural_timeout_skips[where env = env_no_collection_link and i = 0,
          OF h1 h2 h3])
qed

subsection \<open>The fields of the record\<close>

text \<open>
  C4. Whenever an iteration hands a record to \<^verbatim>\<open>to_csv\<close>, its \<^verbatim>\<open>Premium\<close> is \<^verbatim>\<open>"Y"\<close>
  exactly when the wait for the owner-name element returned within its 10 seconds, the
  element's text was read, and the text does not contain \<^verbatim>\<open>Unnamed\<close>; it is never
  anything but \<^verbatim>\<open>"Y"\<close> or the empty string.
\<close>

theorem premium_flag_Y_iff:
  assumes "get_driver env = Inr drv"
    and "to_csv_calls (snd (iteration env i address self)) = to_csv_calls self @ [st]"
  shows "(Premium st = ''Y'' \<longleftrightarrow>
           until_visible drv (CSS_SELECTOR, SEL_ADDRESS_NAME) 10 = None \<and>
           (\<exists>t. find_text drv (CSS_SELECTOR, SEL_ADDRESS_NAME) = Inr t \<and>
                \<not> sublist ''Unnamed'' t)) \<and>
         (Premium st = ''Y'' \<or> Premium st = '''')"
proof -
  from iteration_emitted[OF assms(2)] assms(1)
  have "Premium st = read_premium drv" by auto
  then show ?thesis using read_premium_Y[of drv] read_premium_values[of drv] by simp
qed

theorem premium_flag_Y_iff_witness:
  "Premium \<lparr>TodaysDate = ''11-03-2026'', ScanAddress = ''cryptopunks'',
         CollectionName = ''CryptoPunks'', Collection = ''CryptoPunks'',
         AssetNumber = ''1234'', BestOffer = ''0.5 ETH'', Premium = ''Y''\<rparr> = ''Y'' \<and>
   until_visible driver_resolves (CSS_SELECTOR, SEL_ADDRESS_NAME) 10 = None \<and>
   (\<exists>t. find_text driver_resolves (CSS_SELECTOR, SEL_ADDRESS_NAME) = Inr t \<and>
        \<not> sublist ''Unnamed'' t)"
proof -
  have h1: "get_driver (attempt_with driver_resolves) = Inr driver_resolves"
    by (simp add: attempt_with_def)
  show ?thesis
    using premium_flag_Y_iff[OF h1 example_resolves] by simp
qed

text \<open>
  C5. Whenever an iteration hands a record to \<^verbatim>\<open>to_csv\<close>, its \<^verbatim>\<open>AssetNumber\<close> is the
  final \<^verbatim>\<open>/\<close>-delimited segment of the asset URL read from the anchor: the URL ends
  with it, it holds no \<^verbatim>\<open>/\<close>, and what precedes it is empty or ends in \<^verbatim>\<open>/\<close>.
\<close>

theorem asset_number_final_segment:
  assumes "get_driver env = Inr drv"
    and "find_href drv (CSS_SELECTOR, SEL_ASSET_ANCHOR) = Inr asset_url"
    and "to_csv_calls (snd (iteration env i address self)) = to_csv_calls self @ [st]"
  shows "AssetNumber st = final_segment (CHR ''/'') asset_url \<and>
         (\<exists>p. asset_url = p @ AssetNumber st \<and> CHR ''/'' \<notin> set (AssetNumber st) \<and>
              (p = [] \<or> last p = CHR ''/''))"
proof -
  from iteration_emitted[OF assms(3)] assms(1,2)
  have "AssetNumber st = last (py_split (CHR ''/'') asset_url)" by auto
  then have a: "AssetNumber st = final_segment (CHR ''/'') asset_url"
    by (simp add: last_py_split)
  with final_segment_suffix[of asset_url "CHR ''/''"] show ?thesis by simp
qed

theorem asset_number_final_segment_witness:
  "AssetNumber \<lparr>TodaysDate = ''11-03-2026'', ScanAddress = ''cryptopunks'',
         CollectionName = ''CryptoPunks'', Collection = ''CryptoPunks'',
         AssetNumber = ''1234'', BestOffer = ''0.5 ETH'', Premium = ''Y''\<rparr> =
     final_segment (CHR ''/'') ''https://opensea.io/assets/ethereum/0xb47e/1234''"
proof -
  have h1: "get_driver (attempt_with driver_resolves) = Inr driver_resolves"
    by (simp add: attempt_with_def)
  have h2: "find_href driver_resolves (CSS_SELECTOR, SEL_ASSET_ANCHOR) =
              Inr ''https://opensea.io/assets/ethereum/0xb47e/1234''"
    by (simp add: driver_resolves_def)
  show ?thesis
    using asset_number_final_segment[OF h1 h2 example_resolves] by simp
qed

text \<open>
  C6, as stated: with the best-offer element absent and both structural anchors resolved,
  the record has a non-empty \<^verbatim>\<open>AssetNumber\<close>. It fails for an asset link that ends in a
  slash: the best-offer lookup raises, both waits return, the iteration ends normally and
  writes a record, and the record's \<^verbatim>\<open>AssetNumber\<close> is the empty string.
\<close>

theorem trailing_slash_empty_asset_number:
  "find_text driver_trailing_slash (CSS_SELECTOR, SEL_BEST_OFFER) = Inl WebDriverException \<and>
   until_visible driver_trailing_slash (CSS_SELECTOR, SEL_ASSET_ANCHOR) 10 = None \<and>
   until_visible driver_trailing_slash (CSS_SELECTOR, SEL_COLLECTION_LINK) 5 = None \<and>
   iteration (attempt_with driver_trailing_slash) 0 ''cryptopunks'' example_bot =
     (None, example_bot
        \<lparr>LOGGER := [Scraping 0 ''cryptopunks''
                       ''https://opensea.io/cryptopunks?search[sortBy]=UNIT_PRICE&search[sortAscending]=false'',
                     WaitingOpenSea, WaitingStats,
                     StatsMsg (example_stats\<lparr>AssetNumber := '''', BestOffer := ''''\<rparr>),
                     Saved, ClosingBrowser],
         file_valid := Some [HeaderRow columns,
                             DataRow (values_of
                               (example_stats\<lparr>AssetNumber := '''', BestOffer := ''''\<rparr>))],
         to_csv_calls := [example_stats\<lparr>AssetNumber := '''', BestOffer := ''''\<rparr>]\<rparr>) \<and>
   AssetNumber (example_stats\<lparr>AssetNumber := '''', BestOffer := ''''\<rparr>) = ''''"
  by code_simp

text \<open>
  C6, amended: when the best-offer lookup raises and both structural waits returned, the
  iteration still hands exactly one record to \<^verbatim>\<open>to_csv\<close>; its \<^verbatim>\<open>ScanAddress\<close> is the
  input address, its \<^verbatim>\<open>AssetNumber\<close> is the final \<^verbatim>\<open>/\<close>-segment of the asset URL (empty
  exactly when the URL is empty or ends in \<^verbatim>\<open>/\<close>), and its \<^verbatim>\<open>BestOffer\<close> is empty. The
  lookup failure does not escape: the only exceptions that can leave the iteration are
  the one of \<^verbatim>\<open>to_csv\<close> and those that \<^verbatim>\<open>finish\<close> lets through.
\<close>

theorem best_offer_absent_record:
  assumes "get_driver env = Inr drv"
    and "get_result drv (OPENSEA_HOME_URL @ address @ url_filter) = None"
    and "until_visible drv (CSS_SELECTOR, SEL_ASSET_ANCHOR) 10 = None"
    and "find_href drv (CSS_SELECTOR, SEL_ASSET_ANCHOR) = Inr asset_url"
    and "get_result drv asset_url = None"
    and "until_visible drv (CSS_SELECTOR, SEL_COLLECTION_LINK) 5 = None"
    and "find_text drv (CSS_SELECTOR, SEL_BEST_OFFER) = Inl exc"
  shows "(\<exists>st. to_csv_calls (snd (iteration env i address self)) = to_csv_calls self @ [st] \<and>
              ScanAddress st = address \<and>
              AssetNumber st = final_segment (CHR ''/'') asset_url \<and>
              (AssetNumber st = [] \<longleftrightarrow> asset_url = [] \<or> last asset_url = CHR ''/'') \<and>
              BestOffer st = '''') \<and>
         fst (iteration env i address self) =
           (case to_csv_result env of
              Some e \<Rightarrow> Some e
            | None \<Rightarrow> fst (finish drv i self))"
proof -
  have "fst (iteration env i address self) =
          (case to_csv_result env of
             Some e \<Rightarrow> Some e
           | None \<Rightarrow> fst (finish drv i self))"
    unfolding iteration_resolved[OF assms(1-6)] by (rule save_and_finish_raises)
  moreover have "\<exists>st.
      to_csv_calls (snd (iteration env i address self)) = to_csv_calls self @ [st] \<and>
      ScanAddress st = address \<and>
      AssetNumber st = final_segment (CHR ''/'') asset_url \<and>
      (AssetNumber st = [] \<longleftrightarrow> asset_url = [] \<or> last asset_url = CHR ''/'') \<and>
      BestOffer st = ''''"
    unfolding iteration_resolved[OF assms(1-6)] save_and_finish_calls
    using assms(7)
    by (simp add: last_py_split final_segment_empty_iff read_best_offer_def)
  ultimately show ?thesis by blast
qed

theorem best_offer_absent_record_witness:
  "(\<exists>st. to_csv_calls (snd (iteration (attempt_with driver_no_offer) 0 ''cryptopunks''
                             example_bot)) = to_csv_calls example_bot @ [st] \<and>
         ScanAddress st = ''cryptopunks'' \<and>
         AssetNumber st = ''1234'' \<and>
         BestOffer st = '''') \<and>
   fst (iteration (attempt_with driver_no_offer) 0 ''cryptopunks'' example_bot) = None"
proof -
  have seg: "final_segment (CHR ''/'') ''https://opensea.io/assets/ethereum/0xb47e/1234'' =
               ''1234''"
    by (simp add: final_segment_def)
  have fin: "fst (finish driver_no_offer 0 example_bot) = None"
    by (simp add: finish_def driver_no_offer_def driver_resolves_def Let_def)
  have csv: "to_csv_result (attempt_with driver_no_offer) = None"
    by (simp add: attempt_with_def)
  from best_offer_absent_record[OF driver_resolves_facts(1) driver_no_offer_facts(1,2,3,1,2,4),
        where address = "''cryptopunks''" and i = 0 and self = example_bot]
  obtain st where
    "to_csv_calls (snd (iteration (attempt_with driver_no_offer) 0 ''cryptopunks''
                          example_bot)) = to_csv_calls example_bot @ [st]"
    "ScanAddress st = ''cryptopunks''"
    "AssetNumber st = final_segment (CHR ''/'') ''https://opensea.io/assets/ethereum/0xb47e/1234''"
    "BestOffer st = ''''"
    and f: "fst (iteration (attempt_with driver_no_offer) 0 ''cryptopunks'' example_bot) =
              (case to_csv_result (attempt_with driver_no_offer) of
                 Some e \<Rightarrow> Some e
               | None \<Rightarrow> fst (finish driver_no_offer 0 example_bot))"
    by blast
  then show ?thesis unfolding seg fin csv by auto
qed

subsection \<open>The output file\<close>

text \<open>
  C7. The store of the program is append-or-create with at most one header. An iteration
  that resolves its address and whose \<^verbatim>\<open>to_csv\<close> returns makes one call: against a file
  that does not exist it leaves the header row followed by the record's row, against an
  existing file it leaves the earlier rows, the header included, as they were, followed by
  the record's row. And two process runs of \<^verbatim>\<open>get_address_details\<close>, the first starting
  with no file and the second with the file the first one left, leave one header row
  followed by the rows of all the records handed to \<^verbatim>\<open>to_csv\<close>, in call order (and no
  file when there was no record at all).
\<close>

theorem valid_csv_append_or_create:
  "(get_driver env = Inr drv \<and>
    get_result drv (OPENSEA_HOME_URL @ address @ url_filter) = None \<and>
    until_visible drv (CSS_SELECTOR, SEL_ASSET_ANCHOR) 10 = None \<and>
    find_href drv (CSS_SELECTOR, SEL_ASSET_ANCHOR) = Inr asset_url \<and>
    get_result drv asset_url = None \<and>
    until_visible drv (CSS_SELECTOR, SEL_COLLECTION_LINK) 5 = None \<and>
    to_csv_result env = None \<longrightarrow>
      (\<exists>st. to_csv_calls (snd (iteration env i address self)) = to_csv_calls self @ [st] \<and>
            file_valid (snd (iteration env i address self)) =
              (case file_valid self of
                 None \<Rightarrow> Some [HeaderRow columns, DataRow (values_of st)]
               | Some rows \<Rightarrow> Some (rows @ [DataRow (values_of st)])))) \<and>
   ((\<forall>k<length addresses1. to_csv_result (env1 k) = None) \<and>
    (\<forall>k<length addresses2. to_csv_result (env2 k) = None) \<and>
    file_valid self1 = None \<and>
    file_valid self2 = file_valid (snd (get_address_details env1 addresses1 self1)) \<longrightarrow>
      (\<exists>new1 new2.
         to_csv_calls (snd (get_address_details env1 addresses1 self1)) =
           to_csv_calls self1 @ new1 \<and>
         to_csv_calls (snd (get_address_details env2 addresses2 self2)) =
           to_csv_calls self2 @ new2 \<and>
         file_valid (snd (get_address_details env2 addresses2 self2)) =
           (if new1 @ new2 = [] then None
            else Some (HeaderRow columns #
                       map (\<lambda>s. DataRow (values_of s)) (new1 @ new2)))))"
proof (intro conjI impI)
  assume h: "get_driver env = Inr drv \<and>
    get_result drv (OPENSEA_HOME_URL @ address @ url_filter) = None \<and>
    until_visible drv (CSS_SELECTOR, SEL_ASSET_ANCHOR) 10 = None \<and>
    find_href drv (CSS_SELECTOR, SEL_ASSET_ANCHOR) = Inr asset_url \<and>
    get_result drv asset_url = None \<and>
    until_visible drv (CSS_SELECTOR, SEL_COLLECTION_LINK) 5 = None \<and>
    to_csv_result env = None"
  then have r: "get_driver env = Inr drv"
      "get_result drv (OPENSEA_HOME_URL @ address @ url_filter) = None"
      "until_visible drv (CSS_SELECTOR, SEL_ASSET_ANCHOR) 10 = None"
      "find_href drv (CSS_SELECTOR, SEL_ASSET_ANCHOR) = Inr asset_url"
      "get_result drv asset_url = None"
      "until_visible drv (CSS_SELECTOR, SEL_COLLECTION_LINK) 5 = None"
    and csv: "to_csv_result env = None"
    by simp_all
  show "\<exists>st. to_csv_calls (snd (iteration env i address self)) = to_csv_calls self @ [st] \<and>
            file_valid (snd (iteration env i address self)) =
              (case file_valid self of
                 None \<Rightarrow> Some [HeaderRow columns, DataRow (values_of st)]
               | Some rows \<Rightarrow> Some (rows @ [DataRow (values_of st)]))"
    unfolding iteration_resolved[OF r] save_and_finish_calls
    using csv by (simp add: save_and_finish_def Let_def finish_keeps save_stats_def)
next
  let ?D = "\<lambda>s. DataRow (values_of s)"
  assume h: "(\<forall>k<length addresses1. to_csv_result (env1 k) = None) \<and>
    (\<forall>k<length addresses2. to_csv_result (env2 k) = None) \<and>
    file_valid self1 = None \<and>
    file_valid self2 = file_valid (snd (get_address_details env1 addresses1 self1))"
  then have h1: "\<forall>k<length addresses1. to_csv_result (env1 (0 + k)) = None"
    and h2: "\<forall>k<length addresses2. to_csv_result (env2 (0 + k)) = None"
    and fresh: "file_valid self1 = None"
    and found: "file_valid self2 = file_valid (snd (get_address_details env1 addresses1 self1))"
    by simp_all
  from loop_store[OF h1, of self1] fresh obtain new1 where
    c1: "to_csv_calls (snd (get_address_details env1 addresses1 self1)) =
           to_csv_calls self1 @ new1"
    and f1: "file_valid (snd (get_address_details env1 addresses1 self1)) =
           (if new1 = [] then None else Some (HeaderRow columns # map ?D new1))"
    by (auto simp: get_address_details_def)
  from loop_store[OF h2, of self2] found f1 obtain new2 where
    c2: "to_csv_calls (snd (get_address_details env2 addresses2 self2)) =
           to_csv_calls self2 @ new2"
    and f2: "file_valid (snd (get_address_details env2 addresses2 self2)) =
           (case (if new1 = [] then None else Some (HeaderRow columns # map ?D new1)) of
              None \<Rightarrow> (if new2 = [] then None else Some (HeaderRow columns # map ?D new2))
            | Some rows \<Rightarrow> Some (rows @ map ?D new2))"
    by (auto simp: get_address_details_def)
  from f2 have "file_valid (snd (get_address_details env2 addresses2 self2)) =
      (if new1 @ new2 = [] then None else Some (HeaderRow columns # map ?D (new1 @ new2)))"
    by (cases "new1 = []") simp_all
  with c1 c2 show "\<exists>new1 new2.
         to_csv_calls (snd (get_address_details env1 addresses1 self1)) =
           to_csv_calls self1 @ new1 \<and>
         to_csv_calls (snd (get_address_details env2 addresses2 self2)) =
           to_csv_calls self2 @ new2 \<and>
         file_valid (snd (get_address_details env2 addresses2 self2)) =
           (if new1 @ new2 = [] then None
            else Some (HeaderRow columns # map ?D (new1 @ new2)))"
    by blast
qed

theorem valid_csv_append_or_create_witness:
  "(\<exists>st. to_csv_calls (snd (iteration (attempt_with driver_resolves) 0 ''cryptopunks''
                             example_bot)) = to_csv_calls example_bot @ [st] \<and>
         file_valid (snd (iteration (attempt_with driver_resolves) 0 ''cryptopunks''
                            example_bot)) =
           Some [HeaderRow columns, DataRow (values_of st)]) \<and>
   file_valid (snd (get_address_details env_resolves [''azuki''] second_run_bot)) =
     Some [HeaderRow columns, DataRow (values_of example_stats),
           DataRow (values_of (example_stats\<lparr>ScanAddress := ''azuki''\<rparr>))]"
proof -
  note t = valid_csv_append_or_create[where env = "attempt_with driver_resolves"
      and drv = driver_resolves and address = "''cryptopunks''"
      and asset_url = "''https://opensea.io/assets/ethereum/0xb47e/1234''"
      and i = 0 and self = example_bot
      and ?env1.0 = env_resolves and ?env2.0 = env_resolves
      and ?addresses1.0 = "[''cryptopunks'']" and ?addresses2.0 = "[''azuki'']"
      and ?self1.0 = example_bot and ?self2.0 = second_run_bot]
  have csv: "to_csv_result (attempt_with driver_resolves) = None"
    by (simp add: attempt_with_def)
  have none: "file_valid example_bot = None" "to_csv_calls example_bot = []"
    by (simp_all add: example_bot_def)
  from t driver_resolves_facts(1)[of driver_resolves] driver_resolves_facts(2,3,4) csv
  have "\<exists>st. to_csv_calls (snd (iteration (attempt_with driver_resolves) 0 ''cryptopunks''
                             example_bot)) = to_csv_calls example_bot @ [st] \<and>
         file_valid (snd (iteration (attempt_with driver_resolves) 0 ''cryptopunks''
                            example_bot)) =
           (case file_valid example_bot of
              None \<Rightarrow> Some [HeaderRow columns, DataRow (values_of st)]
            | Some rows \<Rightarrow> Some (rows @ [DataRow (values_of st)]))"
    by blast
  then have part1: "\<exists>st. to_csv_calls (snd (iteration (attempt_with driver_resolves) 0
        ''cryptopunks'' example_bot)) = to_csv_calls example_bot @ [st] \<and>
      file_valid (snd (iteration (attempt_with driver_resolves) 0 ''cryptopunks''
        example_bot)) = Some [HeaderRow columns, DataRow (values_of st)]"
    by (simp add: none)
  have e1: "\<forall>k<length [''cryptopunks'']. to_csv_result (env_resolves k) = None"
    and e2: "\<forall>k<length [''azuki'']. to_csv_result (env_resolves k) = None"
    by (simp_all add: env_resolves_def attempt_with_def)
  have found: "file_valid second_run_bot =
      file_valid (snd (get_address_details env_resolves [''cryptopunks''] example_bot))"
    by (simp add: second_run_bot_def)
  have calls2: "to_csv_calls second_run_bot = []"
    by (simp add: second_run_bot_def example_bot_def)
  from t e1 e2 none(1) found obtain new1 new2 where
    c1: "to_csv_calls (snd (get_address_details env_resolves [''cryptopunks''] example_bot)) =
           to_csv_calls example_bot @ new1"
    and c2: "to_csv_calls (snd (get_address_details env_resolves [''azuki''] second_run_bot)) =
           to_csv_calls second_run_bot @ new2"
    and f: "file_valid (snd (get_address_details env_resolves [''azuki''] second_run_bot)) =
           (if new1 @ new2 = [] then None
            else Some (HeaderRow columns # map (\<lambda>s. DataRow (values_of s)) (new1 @ new2)))"
    by blast
  from c1 have n1: "new1 = [example_stats]"
    unfolding first_run_calls by (simp add: none)
  from c2 have n2: "new2 = [example_stats\<lparr>ScanAddress := ''azuki''\<rparr>]"
    unfolding second_run_calls by (simp add: calls2)
  from f have "file_valid (snd (get_address_details env_resolves [''azuki''] second_run_bot)) =
      Some [HeaderRow columns, DataRow (values_of example_stats),
            DataRow (values_of (example_stats\<lparr>ScanAddress := ''azuki''\<rparr>))]"
    unfolding n1 n2 by simp
  with part1 show ?thesis by blast
qed

text \<open>
  C8. In an iteration whose session started, whose two pages loaded, whose asset anchor
  gave its href and whose two structural waits returned, \<^verbatim>\<open>to_csv\<close> is called exactly
  once, with a record whose \<^verbatim>\<open>ScanAddress\<close> is the input address.
\<close>

theorem resolved_address_one_record:
  assumes "get_driver env = Inr drv"
    and "get_result drv (OPENSEA_HOME_URL @ address @ url_filter) = None"
    and "until_visible drv (CSS_SELECTOR, SEL_ASSET_ANCHOR) 10 = None"
    and "find_href drv (CSS_SELECTOR, SEL_ASSET_ANCHOR) = Inr asset_url"
    and "get_result drv asset_url = None"
    and "until_visible drv (CSS_SELECTOR, SEL_COLLECTION_LINK) 5 = None"
  shows "\<exists>st. to_csv_calls (snd (iteration env i address self)) = to_csv_calls self @ [st] \<and>
              ScanAddress st = address"
  unfolding iteration_resolved[OF assms] save_and_finish_calls by simp

theorem resolved_address_one_record_witness:
  "\<exists>st. to_csv_calls (snd (iteration (attempt_with driver_resolves) 0 ''cryptopunks''
                            example_bot)) = to_csv_calls example_bot @ [st] \<and>
        ScanAddress st = ''cryptopunks''"
  by (rule resolved_address_one_record[OF driver_resolves_facts(1,2,3,4,2,3)])

subsection \<open>Settings\<close>

text \<open>
  C9. The seed written by \<^verbatim>\<open>get_settings\<close> has the key \<^verbatim>\<open>ThreadsCount\<close> and \<^verbatim>\<open>main\<close>
  reads \<^verbatim>\<open>ThreadCount\<close>. A run that finds no settings file, or the seeded one, ends with
  \<^verbatim>\<open>KeyError('ThreadCount')\<close> whatever the address file and the browser are: the only
  log message is the launch message, no session was started and nothing was written.
\<close>

theorem seeded_settings_KeyError:
  assumes "file_settings = None \<or> file_settings = Some default_settings"
  shows "run env file_settings file_addresses valid =
     (Some (KeyError ''ThreadCount''),
      \<lparr>settings = default_settings, LOGGER = [Launched], file_valid = valid,
       sessions = [], to_csv_calls = []\<rparr>,
      Some default_settings)"
  using assms
  by (auto simp: run_def init_def get_settings_def main_def info_def default_settings_def)

theorem seeded_settings_KeyError_witness:
  "run env_no_anchor None (Some [''cryptopunks'']) None =
     (Some (KeyError ''ThreadCount''),
      \<lparr>settings = default_settings, LOGGER = [Launched], file_valid = None,
       sessions = [], to_csv_calls = []\<rparr>,
      Some default_settings)"
proof -
  have h: "(None :: json option) = None \<or> None = Some default_settings" by simp
  show ?thesis by (rule seeded_settings_KeyError[OF h])
qed

subsection \<open>\<^verbatim>\<open>wait_until_visible\<close>\<close>

text \<open>
  The test on each argument is Python's truth test, so an empty string counts as not
  supplied: the chain moves on to the next locator.
\<close>

lemma empty_locator_not_supplied:
  "wait_until_visible drv (Some []) (Some (c # cs)) name class_name tag_name duration =
     until_visible drv (ID, c # cs) duration"
  by (simp add: wait_until_visible_def)

text \<open>
  C10. For every call to \<^verbatim>\<open>wait_until_visible\<close>, whatever the session answers, the call
  is the wait on the first locator supplied in the priority order css_selector, element_id,
  name, class_name, tag_name, the other arguments being ignored, and it returns at once
  without raising when none is supplied. A locator is supplied when its argument is true
  for Python: neither \<^verbatim>\<open>None\<close> nor the empty string.
\<close>

theorem wait_until_visible_priority:
  "wait_until_visible drv css_selector element_id name class_name tag_name duration =
     (case first_supplied [(CSS_SELECTOR, css_selector), (ID, element_id), (NAME, name),
                           (CLASS_NAME, class_name), (TAG_NAME, tag_name)] of
        None \<Rightarrow> None
      | Some loc \<Rightarrow> until_visible drv loc duration)"
  by (simp add: wait_until_visible_def)

end
